theory Spec2Isabelle
  imports Complex_Main
begin

section \<open>Conventions\<close>

text \<open>
  The notebooks compute with PyTorch tensors of 32-bit floats. Throughout, a float is
  idealised as a \<^typ>\<open>real\<close>: \<open>torch.sigmoid\<close>, \<open>torch.tanh\<close>, \<open>torch.exp\<close>,
  \<open>torch.sin\<close>, \<open>torch.cos\<close> are the mathematical functions, and rounding, infinities
  and NaN are outside the model. A 0-dimensional tensor is a \<^typ>\<open>real\<close>, a
  1-dimensional tensor a list, a 2-dimensional tensor the list of its rows.
  Every exception the Python code can raise is a value \<open>Inl e\<close> of the result.
\<close>

datatype error = IndexError | RuntimeError | KeyError

type_synonym tensor1 = "real list"
type_synonym tensor2 = "real list list"

definition ebind :: "error + 'a \<Rightarrow> ('a \<Rightarrow> error + 'b) \<Rightarrow> error + 'b" where
  "ebind m f = (case m of Inl e \<Rightarrow> Inl e | Inr x \<Rightarrow> f x)"

text \<open>\<open>X[i]\<close> on a 1-dimensional tensor: negative indices count from the end, an index
  outside \<open>-len .. len-1\<close> raises \<open>IndexError\<close>.\<close>

definition getitem :: "'a list \<Rightarrow> int \<Rightarrow> error + 'a" where
  "getitem xs i =
     (if 0 \<le> i \<and> i < int (length xs) then Inr (xs ! nat i)
      else if i < 0 \<and> - int (length xs) \<le> i then Inr (xs ! nat (int (length xs) + i))
      else Inl IndexError)"

section \<open>The hand-written LSTM (class \<open>LSTM\<close> / \<open>LSTMbyHand\<close>)\<close>

text \<open>\<open>torch.sigmoid\<close>.\<close>

definition sigmoid :: "real \<Rightarrow> real" where
  "sigmoid x = 1 / (1 + exp (- x))"

text \<open>The twelve parameters declared by \<open>__init__\<close>, in declaration order.\<close>

record LSTM =
  wlr1 :: real
  wlr2 :: real
  blr1 :: real
  wpr1 :: real
  wpr2 :: real
  bpr1 :: real
  wp1 :: real
  wp2 :: real
  bp1 :: real
  wo1 :: real
  wo2 :: real
  bo1 :: real

text \<open>\<open>lstm_unit(self, input_value, long_memory, short_memory)\<close>, returning the pair
  \<open>[updated_long_memory, updated_short_memory]\<close>.\<close>

definition lstm_unit :: "LSTM \<Rightarrow> real \<Rightarrow> real \<Rightarrow> real \<Rightarrow> real \<times> real" where
  "lstm_unit self input_value long_memory short_memory =
     (let long_remember_percent =
            sigmoid ((short_memory * wlr1 self) + (input_value * wlr2 self) + blr1 self);
          potential_remember_percent =
            sigmoid ((short_memory * wpr1 self) + (input_value * wpr2 self) + bpr1 self);
          potential_memory =
            tanh ((short_memory * wp1 self) + (input_value * wp2 self) + bp1 self);
          updated_long_memory =
            (long_memory * long_remember_percent)
              + (potential_remember_percent * potential_memory);
          output_percent =
            sigmoid ((short_memory * wo1 self) + (input_value * wo2 self));
          updated_short_memory = tanh updated_long_memory * output_percent
      in (updated_long_memory, updated_short_memory))"

text \<open>\<open>forward(self, X)\<close>: the four reads \<open>X[0]\<close> .. \<open>X[3]\<close> come first, each of which
  can raise, then the four calls of \<open>lstm_unit\<close>.\<close>

definition LSTM_forward :: "LSTM \<Rightarrow> tensor1 \<Rightarrow> error + real" where
  "LSTM_forward self X =
     (let long_memory = 0; short_memory = 0 in
      ebind (getitem X 0) (\<lambda>day1.
      ebind (getitem X 1) (\<lambda>day2.
      ebind (getitem X 2) (\<lambda>day3.
      ebind (getitem X 3) (\<lambda>day4.
        let (long_memory, short_memory) = lstm_unit self day1 long_memory short_memory;
            (long_memory, short_memory) = lstm_unit self day2 long_memory short_memory;
            (long_memory, short_memory) = lstm_unit self day3 long_memory short_memory;
            (long_memory, short_memory) = lstm_unit self day4 long_memory short_memory
        in Inr short_memory)))))"

subsection \<open>The specification's wording of the cell\<close>

text \<open>The per-step update as the specification writes it, with its own parameter names:
  forget gate \<open>(w_f1, w_f2, b_f)\<close>, candidate gate \<open>(w_c1, w_c2, b_c)\<close>, candidate value
  \<open>(w_v1, w_v2, b_v)\<close>, output gate \<open>(w_o1, w_o2)\<close>.\<close>

definition spec_step ::
  "real \<Rightarrow> real \<Rightarrow> real \<Rightarrow> real \<Rightarrow> real \<Rightarrow> real \<Rightarrow> real \<Rightarrow> real \<Rightarrow> real \<Rightarrow> real \<Rightarrow> real
     \<Rightarrow> real \<Rightarrow> real \<Rightarrow> real \<Rightarrow> real \<times> real" where
  "spec_step w_f1 w_f2 b_f w_c1 w_c2 b_c w_v1 w_v2 b_v w_o1 w_o2 x L S =
     (L * sigmoid (S * w_f1 + x * w_f2 + b_f)
        + sigmoid (S * w_c1 + x * w_c2 + b_c) * tanh (S * w_v1 + x * w_v2 + b_v),
      tanh (L * sigmoid (S * w_f1 + x * w_f2 + b_f)
              + sigmoid (S * w_c1 + x * w_c2 + b_c) * tanh (S * w_v1 + x * w_v2 + b_v))
        * sigmoid (S * w_o1 + x * w_o2))"

text \<open>The specification's forward pass: start from \<open>(L, S) = (0, 0)\<close>, apply the update
  once per element in input order, return the final \<open>S\<close>.\<close>

definition spec_forward :: "LSTM \<Rightarrow> real list \<Rightarrow> real" where
  "spec_forward self xs =
     snd (foldl (\<lambda>(L, S) x. lstm_unit self x L S) (0, 0) xs)"

subsection \<open>The notebook's data\<close>

text \<open>The parameters the notebook prints before optimisation (to three decimals) and
  its first training example, \<open>Company A\<close>.\<close>

definition lstm_initial :: LSTM where
  "lstm_initial =
     \<lparr>wlr1 = 594 / 1000, wlr2 = - 127 / 1000, blr1 = 0,
      wpr1 = - 729 / 1000, wpr2 = 721 / 1000, bpr1 = 0,
      wp1 = - 566 / 1000, wp2 = 578 / 1000, bp1 = 0,
      wo1 = 307 / 1000, wo2 = 614 / 1000, bo1 = 0\<rparr>"

definition company_A :: tensor1 where
  "company_A = [0, 1 / 2, 1 / 4, 1]"

text \<open>The four calls of \<open>lstm_unit\<close> in \<open>forward\<close>, on the four values read.\<close>

definition four_steps :: "LSTM \<Rightarrow> real \<Rightarrow> real \<Rightarrow> real \<Rightarrow> real \<Rightarrow> real \<times> real" where
  "four_steps self day1 day2 day3 day4 =
     (let s1 = lstm_unit self day1 0 0;
          s2 = lstm_unit self day2 (fst s1) (snd s1);
          s3 = lstm_unit self day3 (fst s2) (snd s2)
      in lstm_unit self day4 (fst s3) (snd s3))"

section \<open>Tensor operations of the decoder transformer\<close>

text \<open>
  A 2-dimensional tensor is the list of its rows, so a tensor with no rows has lost its
  number of columns. Where the source fixes that number statically (the output width of a
  linear layer, the width of the encoding table) the model passes it along explicitly.
\<close>

text \<open>The first error of a list of results, or all the values.\<close>

fun collect :: "(error + 'a) list \<Rightarrow> error + 'a list" where
  "collect [] = Inr []"
| "collect (r # rs) =
     (case r of
        Inl e \<Rightarrow> Inl e
      | Inr x \<Rightarrow> (case collect rs of Inl e \<Rightarrow> Inl e | Inr xs \<Rightarrow> Inr (x # xs)))"

text \<open>PyTorch broadcasting along one dimension: equal sizes pair up, a size of 1 is
  repeated against the other size, anything else raises.\<close>

definition bzip :: "'a list \<Rightarrow> 'b list \<Rightarrow> error + ('a \<times> 'b) list" where
  "bzip xs ys =
     (if length xs = length ys then Inr (zip xs ys)
      else if length xs = 1 then Inr (map (\<lambda>y. (hd xs, y)) ys)
      else if length ys = 1 then Inr (map (\<lambda>x. (x, hd ys)) xs)
      else Inl RuntimeError)"

text \<open>An elementwise binary operation on two 2-dimensional tensors, broadcast in both
  dimensions.\<close>

definition broadcast2 ::
  "('a \<Rightarrow> 'b \<Rightarrow> 'c) \<Rightarrow> 'a list list \<Rightarrow> 'b list list \<Rightarrow> error + 'c list list" where
  "broadcast2 f A B =
     ebind (bzip A B) (\<lambda>rows.
       collect (map (\<lambda>(a, b). ebind (bzip a b) (\<lambda>cs. Inr (map (\<lambda>(x, y). f x y) cs))) rows))"

text \<open>\<open>A + B\<close>.\<close>

definition tensor_add :: "tensor2 \<Rightarrow> tensor2 \<Rightarrow> error + tensor2" where
  "tensor_add A B = broadcast2 (+) A B"

text \<open>\<open>S.masked_fill(mask=M, value=v)\<close>: \<open>v\<close> where the mask is true, \<open>S\<close> elsewhere. The
  call is the out-of-place one, which broadcasts the tensor and the mask against each
  other.\<close>

definition masked_fill :: "tensor2 \<Rightarrow> bool list list \<Rightarrow> real \<Rightarrow> error + tensor2" where
  "masked_fill S M v = broadcast2 (\<lambda>s m. if m then v else s) S M"

definition dot :: "tensor1 \<Rightarrow> tensor1 \<Rightarrow> real" where
  "dot u v = sum_list (map2 (*) u v)"

text \<open>\<open>torch.matmul(A, B.transpose(0, 1))\<close>: entry \<open>(i, j)\<close> is the inner product of row
  \<open>i\<close> of \<open>A\<close> with row \<open>j\<close> of \<open>B\<close>; the rows must be equally long.\<close>

definition matmul_transposed :: "tensor2 \<Rightarrow> tensor2 \<Rightarrow> error + tensor2" where
  "matmul_transposed A B =
     (if \<forall>a \<in> set A. \<forall>b \<in> set B. length a = length b
      then Inr (map (\<lambda>a. map (\<lambda>b. dot a b) B) A)
      else Inl RuntimeError)"

text \<open>\<open>torch.matmul(A, B)\<close> where \<open>B\<close> has \<open>cols\<close> columns: every row of \<open>A\<close> must be as
  long as \<open>B\<close> has rows.\<close>

definition matmul :: "tensor2 \<Rightarrow> tensor2 \<Rightarrow> nat \<Rightarrow> error + tensor2" where
  "matmul A B cols =
     (if \<forall>a \<in> set A. length a = length B
      then Inr (map (\<lambda>a. map (\<lambda>c. sum_list (map2 (\<lambda>x b. x * b ! c) a B)) [0..<cols]) A)
      else Inl RuntimeError)"

text \<open>\<open>F.softmax\<close> of one row, and of every row (\<open>dim=1\<close>).\<close>

definition softmax :: "tensor1 \<Rightarrow> tensor1" where
  "softmax xs = map (\<lambda>x. exp x / sum_list (map exp xs)) xs"

definition softmax_dim1 :: "tensor2 \<Rightarrow> tensor2" where
  "softmax_dim1 T = map softmax T"

text \<open>\<open>torch.argmax\<close> of a 1-dimensional tensor: the index of the first maximal value;
  it raises on an empty tensor.\<close>

fun argmax_from :: "real \<Rightarrow> nat \<Rightarrow> nat \<Rightarrow> real list \<Rightarrow> nat" where
  "argmax_from best best_i i [] = best_i"
| "argmax_from best best_i i (x # xs) =
     (if best < x then argmax_from x i (Suc i) xs else argmax_from best best_i (Suc i) xs)"

definition argmax :: "real list \<Rightarrow> error + nat" where
  "argmax xs = (case xs of [] \<Rightarrow> Inl IndexError | x # rest \<Rightarrow> Inr (argmax_from x 0 1 rest))"

subsection \<open>\<open>nn.Linear\<close> and \<open>nn.Embedding\<close>\<close>

text \<open>\<open>nn.Linear\<close>: \<open>weight\<close> has one row per output feature, \<open>bias\<close> is absent with
  \<open>bias=False\<close>. Applying it to a tensor whose rows do not have \<open>in_features\<close> entries
  raises. The width of a tensor or of a weight without rows is not represented, so the
  model compares widths only where both have a row.\<close>

record Linear =
  weight :: tensor2
  bias :: "tensor1 option"

definition Linear_forward :: "Linear \<Rightarrow> tensor2 \<Rightarrow> error + tensor2" where
  "Linear_forward self x =
     (if \<forall>r \<in> set x. \<forall>w \<in> set (weight self). length r = length w
      then Inr (map (\<lambda>r.
                  case bias self of
                    None \<Rightarrow> map (\<lambda>w. dot r w) (weight self)
                  | Some b \<Rightarrow> map2 (\<lambda>w c. dot r w + c) (weight self) b) x)
      else Inl RuntimeError)"

text \<open>\<open>nn.Embedding\<close>, given by its table: a token id outside \<open>0 .. num_embeddings - 1\<close>
  raises \<open>IndexError\<close>.\<close>

definition Embedding_forward :: "tensor2 \<Rightarrow> int list \<Rightarrow> error + tensor2" where
  "Embedding_forward table token_ids =
     (if \<forall>t \<in> set token_ids. 0 \<le> t \<and> t < int (length table)
      then Inr (map (\<lambda>t. table ! nat t) token_ids)
      else Inl IndexError)"

section \<open>class \<open>PositionEncoding\<close>\<close>

record PositionEncoding =
  pe :: tensor2

text \<open>The columns selected by the slice \<open>start::2\<close> of a row with \<open>n\<close> entries.\<close>

definition slice_step2 :: "nat \<Rightarrow> nat \<Rightarrow> nat list" where
  "slice_step2 start n = map (\<lambda>k. start + 2 * k) [0..<(n - start + 1) div 2]"

text \<open>\<open>T[:, start::2] = V\<close> for a target with \<open>cols\<close> columns and a value with \<open>vcols\<close>
  columns and as many rows as the target: the value must have as many columns as the
  slice selects, or one column, which is then repeated.\<close>

definition setitem_cols :: "nat \<Rightarrow> nat \<Rightarrow> tensor2 \<Rightarrow> nat \<Rightarrow> tensor2 \<Rightarrow> error + tensor2" where
  "setitem_cols start cols T vcols V =
     (if vcols = length (slice_step2 start cols) \<or> vcols = 1
      then Inr (map2 (\<lambda>t v. map (\<lambda>c. if start \<le> c \<and> even (c - start)
                                       then v ! (if vcols = 1 then 0 else (c - start) div 2)
                                       else t ! c) [0..<cols]) T V)
      else Inl RuntimeError)"

definition PositionEncoding_init :: "nat \<Rightarrow> nat \<Rightarrow> error + PositionEncoding" where
  "PositionEncoding_init d_model max_len =
     (let pe = replicate max_len (replicate d_model 0);
          position = map real [0..<max_len];
          embedding_index = map real (slice_step2 0 d_model);
          div_term = map (\<lambda>e. 1 / (10000 powr (e / real d_model))) embedding_index
      in ebind (setitem_cols 0 d_model pe (length div_term)
                 (map (\<lambda>p. map (\<lambda>t. sin (p * t)) div_term) position)) (\<lambda>pe.
         ebind (setitem_cols 1 d_model pe (length div_term)
                 (map (\<lambda>p. map (\<lambda>t. cos (p * t)) div_term) position)) (\<lambda>pe.
         Inr \<lparr>pe = pe\<rparr>)))"

text \<open>\<open>forward\<close> reads the table and returns the sum; it assigns nothing to \<open>self\<close>.\<close>

definition PositionEncoding_forward :: "PositionEncoding \<Rightarrow> tensor2 \<Rightarrow> error + tensor2" where
  "PositionEncoding_forward self word_embeddings =
     tensor_add word_embeddings (take (length word_embeddings) (pe self))"

section \<open>class \<open>Attention\<close>\<close>

text \<open>The three linear maps; \<open>row_dim = 0\<close> and \<open>col_dim = 1\<close> are constants, and the field
  \<open>d_model\<close> is stored and never read.\<close>

record Attention =
  d_model :: nat
  W_q :: Linear
  W_k :: Linear
  W_v :: Linear

text \<open>The local variable \<open>attention_percents\<close> of \<open>forward\<close>. The three linear maps are
  applied first, in the source's order; \<open>k.size(1)\<close> is the output width of \<open>W_k\<close>. The
  argument \<open>mask\<close> is written \<open>mask'\<close>: \<open>None\<close>, or a 2-dimensional boolean tensor.
  With an output width of 0 the float code divides zero by zero and continues with NaN,
  which a real number cannot express: the model is meant for a width of at least 1.\<close>

definition attention_percents ::
  "Attention \<Rightarrow> tensor2 \<Rightarrow> tensor2 \<Rightarrow> tensor2 \<Rightarrow> bool list list option \<Rightarrow> error + tensor2" where
  "attention_percents self encodings_for_q encodings_for_k encodings_for_v mask' =
     ebind (Linear_forward (W_q self) encodings_for_q) (\<lambda>q.
     ebind (Linear_forward (W_k self) encodings_for_k) (\<lambda>k.
     ebind (Linear_forward (W_v self) encodings_for_v) (\<lambda>v.
     ebind (matmul_transposed q k) (\<lambda>sims.
       let scaled_sims = map (map (\<lambda>s. s / sqrt (real (length (weight (W_k self)))))) sims
       in ebind (case mask' of
                   None \<Rightarrow> Inr scaled_sims
                 | Some m \<Rightarrow> masked_fill scaled_sims m (1 / 10 ^ 9)) (\<lambda>scaled_sims.
          Inr (softmax_dim1 scaled_sims))))))"

definition Attention_forward ::
  "Attention \<Rightarrow> tensor2 \<Rightarrow> tensor2 \<Rightarrow> tensor2 \<Rightarrow> bool list list option \<Rightarrow> error + tensor2" where
  "Attention_forward self encodings_for_q encodings_for_k encodings_for_v mask' =
     ebind (attention_percents self encodings_for_q encodings_for_k encodings_for_v mask')
       (\<lambda>attention_percents.
     ebind (Linear_forward (W_v self) encodings_for_v) (\<lambda>v.
       matmul attention_percents v (length (weight (W_v self)))))"

section \<open>class \<open>DecoderTransformer\<close>\<close>

record DecoderTransformer =
  we :: tensor2
  pe :: PositionEncoding
  self_attention :: Attention
  fc_layer :: Linear

text \<open>The shapes of the parameters and of the buffer that
  \<open>__init__(num_tokens, d_model, max_len)\<close> creates: an embedding table of \<open>num_tokens\<close>
  rows, an encoding table of \<open>max_len\<close> rows, three square maps without bias, and an
  output layer with \<open>num_tokens\<close> rows and a bias; every row has \<open>d_model\<close> entries.\<close>

definition init_shapes :: "DecoderTransformer \<Rightarrow> nat \<Rightarrow> nat \<Rightarrow> nat \<Rightarrow> bool" where
  "init_shapes self num_tokens d max_len \<longleftrightarrow>
     length (we self) = num_tokens \<and> (\<forall>r \<in> set (we self). length r = d)
     \<and> length (PositionEncoding.pe (DecoderTransformer.pe self)) = max_len
     \<and> (\<forall>r \<in> set (PositionEncoding.pe (DecoderTransformer.pe self)). length r = d)
     \<and> (\<forall>L \<in> {W_q (self_attention self), W_k (self_attention self), W_v (self_attention self)}.
           bias L = None \<and> length (weight L) = d \<and> (\<forall>w \<in> set (weight L). length w = d))
     \<and> (\<exists>b. bias (fc_layer self) = Some b \<and> length b = num_tokens)
     \<and> length (weight (fc_layer self)) = num_tokens
     \<and> (\<forall>w \<in> set (weight (fc_layer self)). length w = d)"

text \<open>\<open>torch.tril(torch.ones((n, n)))\<close> and the comparison \<open>mask == 0\<close>.\<close>

definition tril_ones :: "nat \<Rightarrow> tensor2" where
  "tril_ones n = map (\<lambda>i. map (\<lambda>j. if j \<le> i then 1 else 0) [0..<n]) [0..<n]"

definition causal_mask :: "nat \<Rightarrow> bool list list" where
  "causal_mask n = map (map (\<lambda>x. x = 0)) (tril_ones n)"

definition DecoderTransformer_forward :: "DecoderTransformer \<Rightarrow> int list \<Rightarrow> error + tensor2" where
  "DecoderTransformer_forward self token_ids =
     ebind (Embedding_forward (we self) token_ids) (\<lambda>word_embeddings.
     ebind (PositionEncoding_forward (DecoderTransformer.pe self) word_embeddings)
       (\<lambda>position_encoded.
       let mask' = causal_mask (length token_ids)
       in ebind (Attention_forward (self_attention self)
                   position_encoded position_encoded position_encoded (Some mask'))
            (\<lambda>self_attention_values.
          ebind (tensor_add position_encoded self_attention_values)
            (\<lambda>residual_connection_values.
          Linear_forward (fc_layer self) residual_connection_values))))"

text \<open>The local variable \<open>attention_percents\<close> inside the call of \<open>Attention.forward\<close> that
  \<open>DecoderTransformer.forward\<close> makes.\<close>

definition DecoderTransformer_attention :: "DecoderTransformer \<Rightarrow> int list \<Rightarrow> error + tensor2" where
  "DecoderTransformer_attention self token_ids =
     ebind (Embedding_forward (we self) token_ids) (\<lambda>word_embeddings.
     ebind (PositionEncoding_forward (DecoderTransformer.pe self) word_embeddings)
       (\<lambda>position_encoded.
       attention_percents (self_attention self)
         position_encoded position_encoded position_encoded
         (Some (causal_mask (length token_ids)))))"

section \<open>The generation loop \<open>predict\<close>\<close>

definition token_to_id :: "string \<rightharpoonup> int" where
  "token_to_id =
     [''what'' \<mapsto> 0, ''is'' \<mapsto> 1, ''kael'' \<mapsto> 2, ''awesome'' \<mapsto> 3, ''<EOS>'' \<mapsto> 4]"

definition id_to_token :: "int \<rightharpoonup> string" where
  "id_to_token =
     [0 \<mapsto> ''what'', 1 \<mapsto> ''is'', 2 \<mapsto> ''kael'', 3 \<mapsto> ''awesome'', 4 \<mapsto> ''<EOS>'']"

text \<open>\<open>torch.argmax(predictions[-1, :])\<close>: the row index \<open>-1\<close> raises on a tensor with no
  rows.\<close>

definition argmax_last :: "tensor2 \<Rightarrow> error + int" where
  "argmax_last predictions =
     ebind (getitem predictions (- 1)) (\<lambda>row.
     ebind (argmax row) (\<lambda>i. Inr (int i)))"

text \<open>The variables the loop updates.\<close>

record predict_state =
  model_input :: "int list"
  predicted_id :: int
  predicted_ids :: "int list"

text \<open>The \<open>for\<close> loop over \<open>range(input_length, max_length)\<close>, as recursion over the list
  of the indices still to come. Besides the outcome it returns the number of forward
  passes it has started, which the source does not compute.\<close>

fun predict_loop ::
  "DecoderTransformer \<Rightarrow> nat list \<Rightarrow> predict_state \<Rightarrow> nat \<times> (error + predict_state)" where
  "predict_loop model [] s = (0, Inr s)"
| "predict_loop model (i # rest) s =
     (if predicted_id s = the (token_to_id ''<EOS>'') then (0, Inr s)
      else
        let model_input' = model_input s @ [predicted_id s] in
        case ebind (DecoderTransformer_forward model model_input') argmax_last of
          Inl e \<Rightarrow> (1, Inl e)
        | Inr predicted_id' \<Rightarrow>
            (let (passes, outcome) =
                   predict_loop model rest
                     \<lparr>model_input = model_input', predicted_id = predicted_id',
                      predicted_ids = predicted_ids s @ [predicted_id']\<rparr>
             in (Suc passes, outcome)))"

text \<open>\<open>predict\<close> up to the loop's end; \<open>model\<close> is the notebook's global. Primed names
  are the source's variables after their assignment.\<close>

definition predict_generate ::
  "DecoderTransformer \<Rightarrow> int list \<Rightarrow> nat \<times> (error + predict_state)" where
  "predict_generate model model_input' =
     (let input_length = length model_input' in
      case ebind (DecoderTransformer_forward model model_input') argmax_last of
        Inl e \<Rightarrow> (0, Inl e)
      | Inr predicted_id' \<Rightarrow>
          (let predicted_ids' = [predicted_id'];
               max_length = 6
           in predict_loop model [input_length..<max_length]
                \<lparr>model_input = model_input', predicted_id = predicted_id',
                 predicted_ids = predicted_ids'\<rparr>))"

text \<open>The whole of \<open>predict\<close>: the lines it prints, each a tab, a space and the token.\<close>

definition predict :: "DecoderTransformer \<Rightarrow> int list \<Rightarrow> error + string list" where
  "predict model model_input' =
     ebind (snd (predict_generate model model_input')) (\<lambda>s.
       collect (map (\<lambda>i. case id_to_token i of
                               None \<Rightarrow> Inl KeyError
                             | Some t \<Rightarrow> Inr (CHR 0x09 # CHR '' '' # t))
                  (predicted_ids s)))"

section \<open>Example models and inputs\<close>

text \<open>The encoding table of the notebook's model (\<open>d_model = 2\<close>, \<open>max_len = 6\<close>).\<close>

definition notebook_pe :: PositionEncoding where
  "notebook_pe = \<lparr>PositionEncoding.pe =
      [[0, 1], [sin 1, cos 1], [sin 2, cos 2], [sin 3, cos 3], [sin 4, cos 4], [sin 5, cos 5]]\<rparr>"

text \<open>A decoder with two tokens: queries and keys are mapped to zero, values and logits
  are passed through unchanged, and only token 1 has a non-zero embedding.\<close>

definition toy_attention :: Attention where
  "toy_attention =
     \<lparr>d_model = 2,
      W_q = \<lparr>weight = [[0, 0], [0, 0]], bias = None\<rparr>,
      W_k = \<lparr>weight = [[0, 0], [0, 0]], bias = None\<rparr>,
      W_v = \<lparr>weight = [[1, 0], [0, 1]], bias = None\<rparr>\<rparr>"

definition toy_model :: DecoderTransformer where
  "toy_model =
     \<lparr>we = [[0, 0], [1, 0]],
      pe = notebook_pe,
      self_attention = toy_attention,
      fc_layer = \<lparr>weight = [[1, 0], [0, 1]], bias = Some [0, 0]\<rparr>\<rparr>"

text \<open>Decoders whose logits are the bias \<open>b\<close> of the output layer at every position, for
  five tokens: all weights are zero.\<close>

definition constant_model :: "tensor1 \<Rightarrow> DecoderTransformer" where
  "constant_model b =
     \<lparr>we = [[0, 0], [0, 0], [0, 0], [0, 0], [0, 0]],
      pe = notebook_pe,
      self_attention =
        \<lparr>d_model = 2,
         W_q = \<lparr>weight = [[0, 0], [0, 0]], bias = None\<rparr>,
         W_k = \<lparr>weight = [[0, 0], [0, 0]], bias = None\<rparr>,
         W_v = \<lparr>weight = [[0, 0], [0, 0]], bias = None\<rparr>\<rparr>,
      fc_layer = \<lparr>weight = [[0, 0], [0, 0], [0, 0], [0, 0], [0, 0]], bias = Some b\<rparr>\<rparr>"

definition always_awesome :: DecoderTransformer where
  "always_awesome = constant_model [0, 0, 0, 1, 0]"

definition always_EOS :: DecoderTransformer where
  "always_EOS = constant_model [0, 0, 0, 0, 1]"

text \<open>The notebook's seed \<open>what is kael <EOS>\<close>.\<close>

definition what_is_kael_EOS :: "int list" where
  "what_is_kael_EOS = [0, 1, 2, 4]"

section \<open>Properties of the LSTM\<close>

lemma sigmoid_pos: "0 < sigmoid x"
  by (simp add: sigmoid_def add_pos_pos)

lemma sigmoid_lt_1: "sigmoid x < 1"
  by (simp add: sigmoid_def add_pos_pos)

lemma lstm_unit_short_bounds:
  "\<bar>snd (lstm_unit self x L S)\<bar> < 1"
proof -
  let ?L' = "fst (lstm_unit self x L S)"
  let ?o = "sigmoid ((S * wo1 self) + (x * wo2 self))"
  have eq: "snd (lstm_unit self x L S) = tanh ?L' * ?o"
    by (simp add: lstm_unit_def Let_def)
  have t: "\<bar>tanh ?L'\<bar> < 1"
    using tanh_real_lt_1 [of ?L'] tanh_real_gt_neg1 [of ?L'] by (simp add: abs_less_iff)
  have "\<bar>tanh ?L' * ?o\<bar> = \<bar>tanh ?L'\<bar> * ?o"
    using sigmoid_pos [of "(S * wo1 self) + (x * wo2 self)"] by (simp add: abs_mult)
  also have "\<dots> \<le> \<bar>tanh ?L'\<bar> * 1"
    using sigmoid_lt_1 [of "(S * wo1 self) + (x * wo2 self)"]
    by (intro mult_left_mono) simp_all
  finally show ?thesis using t eq by simp
qed

lemma forward_long_enough:
  assumes "4 \<le> length X"
  shows "LSTM_forward self X = Inr (snd (four_steps self (X ! 0) (X ! 1) (X ! 2) (X ! 3)))"
  using assms
  by (auto simp: LSTM_forward_def getitem_def ebind_def Let_def split_beta four_steps_def)

lemma forward_too_short:
  assumes "length X < 4"
  shows "LSTM_forward self X = Inl IndexError"
  using assms by (auto simp: LSTM_forward_def getitem_def ebind_def Let_def)

text \<open>
  Claim C3. One call of \<open>lstm_unit\<close> computes exactly the specification's equations:
  the forget gate from \<open>(wlr1, wlr2, blr1)\<close>, the candidate gate from
  \<open>(wpr1, wpr2, bpr1)\<close>, the candidate value from \<open>(wp1, wp2, bp1)\<close>, the new long memory
  \<open>L * forget + gate * value\<close>, the output gate from \<open>(wo1, wo2)\<close> with no bias, the new
  short memory \<open>tanh L' * output_gate\<close>, and it returns the pair \<open>(L', S')\<close>.
\<close>

theorem lstm_unit_equations:
  "lstm_unit self x L S =
     spec_step (wlr1 self) (wlr2 self) (blr1 self) (wpr1 self) (wpr2 self) (bpr1 self)
       (wp1 self) (wp2 self) (bp1 self) (wo1 self) (wo2 self) x L S"
  by (simp add: lstm_unit_def spec_step_def Let_def)

text \<open>
  Claim C4. On a 4-element input the forward pass starts from \<open>(0, 0)\<close>, applies
  \<open>lstm_unit\<close> once per element in input order, and returns the final short memory:
  it is the left fold of the update over the input, and it does not raise.
\<close>

theorem forward_is_four_steps:
  assumes "length X = 4"
  shows "LSTM_forward self X = Inr (spec_forward self X)"
proof -
  from assms obtain a b c d where X: "X = [a, b, c, d]"
    by (auto simp: length_Suc_conv eval_nat_numeral)
  show ?thesis
    unfolding X
    by (simp add: LSTM_forward_def getitem_def ebind_def Let_def split_beta spec_forward_def)
qed

theorem forward_is_four_steps_witness:
  "length company_A = 4
   \<and> LSTM_forward lstm_initial company_A = Inr (spec_forward lstm_initial company_A)"
  using forward_is_four_steps [of company_A lstm_initial] by (simp add: company_A_def)

text \<open>
  Claim C8. Whatever the parameters and the input, a prediction that \<open>forward\<close> returns
  lies strictly between \<open>-1\<close> and \<open>1\<close>; in particular it is never the label \<open>1\<close>.
\<close>

theorem forward_in_open_interval:
  assumes "LSTM_forward self X = Inr y"
  shows "- 1 < y \<and> y < 1 \<and> y \<noteq> 1"
proof -
  have len: "4 \<le> length X"
  proof (rule ccontr)
    assume "\<not> 4 \<le> length X"
    then have "LSTM_forward self X = Inl IndexError" by (simp add: forward_too_short)
    with assms show False by simp
  qed
  have "y = snd (four_steps self (X ! 0) (X ! 1) (X ! 2) (X ! 3))"
    using assms forward_long_enough [OF len, of self] by simp
  then have "\<bar>y\<bar> < 1"
    by (simp add: four_steps_def Let_def lstm_unit_short_bounds)
  then show ?thesis by (simp add: abs_less_iff)
qed

theorem forward_in_open_interval_witness:
  "\<exists>y. LSTM_forward lstm_initial company_A = Inr y \<and> - 1 < y \<and> y < 1 \<and> y \<noteq> 1"
proof -
  have "4 \<le> length company_A" by (simp add: company_A_def)
  then obtain y where y: "LSTM_forward lstm_initial company_A = Inr y"
    using forward_long_enough by blast
  from forward_in_open_interval [OF y] y show ?thesis by blast
qed

text \<open>The long memory grows by less than 1 per step, so after four steps the prediction
  stays below \<open>tanh 4\<close> in absolute value.\<close>

lemma lstm_unit_long_bound:
  "\<bar>fst (lstm_unit self x L S)\<bar> < \<bar>L\<bar> + 1"
proof -
  let ?f = "sigmoid ((S * wlr1 self) + (x * wlr2 self) + blr1 self)"
  let ?g = "sigmoid ((S * wpr1 self) + (x * wpr2 self) + bpr1 self)"
  let ?v = "tanh ((S * wp1 self) + (x * wp2 self) + bp1 self)"
  have eq: "fst (lstm_unit self x L S) = L * ?f + ?g * ?v"
    by (simp add: lstm_unit_def Let_def)
  have f: "0 < ?f" "?f < 1" and g: "0 < ?g" "?g < 1"
    by (rule sigmoid_pos sigmoid_lt_1)+
  have v: "\<bar>?v\<bar> < 1"
    using tanh_real_lt_1 [of "(S * wp1 self) + (x * wp2 self) + bp1 self"]
      tanh_real_gt_neg1 [of "(S * wp1 self) + (x * wp2 self) + bp1 self"]
    by (simp add: abs_less_iff)
  have "\<bar>L * ?f\<bar> \<le> \<bar>L\<bar>"
    using f by (simp add: abs_mult mult_left_le)
  moreover have "\<bar>?g * ?v\<bar> < 1"
  proof -
    have "\<bar>?g * ?v\<bar> = ?g * \<bar>?v\<bar>" using g by (simp add: abs_mult)
    also have "\<dots> \<le> 1 * \<bar>?v\<bar>" using g by (intro mult_right_mono) simp_all
    finally show ?thesis using v by simp
  qed
  ultimately show ?thesis unfolding eq by linarith
qed

lemma forward_bounded_by_tanh_4:
  assumes "LSTM_forward self X = Inr y"
  shows "\<bar>y\<bar> < tanh 4"
proof -
  have len: "4 \<le> length X"
  proof (rule ccontr)
    assume "\<not> 4 \<le> length X"
    then have "LSTM_forward self X = Inl IndexError" by (simp add: forward_too_short)
    with assms show False by simp
  qed
  define s1 where "s1 = lstm_unit self (X ! 0) 0 0"
  define s2 where "s2 = lstm_unit self (X ! 1) (fst s1) (snd s1)"
  define s3 where "s3 = lstm_unit self (X ! 2) (fst s2) (snd s2)"
  define s4 where "s4 = lstm_unit self (X ! 3) (fst s3) (snd s3)"
  have y: "y = snd s4"
    using assms forward_long_enough [OF len, of self]
    by (simp add: four_steps_def Let_def s1_def s2_def s3_def s4_def)
  have "\<bar>fst s1\<bar> < 1" using lstm_unit_long_bound [of self "X ! 0" 0 0] by (simp add: s1_def)
  then have "\<bar>fst s2\<bar> < 2"
    using lstm_unit_long_bound [of self "X ! 1" "fst s1" "snd s1"] by (simp add: s2_def)
  then have "\<bar>fst s3\<bar> < 3"
    using lstm_unit_long_bound [of self "X ! 2" "fst s2" "snd s2"] by (simp add: s3_def)
  then have L4: "\<bar>fst s4\<bar> < 4"
    using lstm_unit_long_bound [of self "X ! 3" "fst s3" "snd s3"] by (simp add: s4_def)
  let ?o = "sigmoid ((snd s3 * wo1 self) + (X ! 3 * wo2 self))"
  have s: "snd s4 = tanh (fst s4) * ?o"
    by (simp add: s4_def lstm_unit_def Let_def)
  have t: "\<bar>tanh (fst s4)\<bar> < tanh 4"
    using L4 by (simp add: tanh_real_abs [symmetric] del: tanh_real_abs)
  have "\<bar>snd s4\<bar> = \<bar>tanh (fst s4)\<bar> * ?o"
    unfolding s using sigmoid_pos [of "(snd s3 * wo1 self) + (X ! 3 * wo2 self)"]
    by (simp add: abs_mult)
  also have "\<dots> \<le> \<bar>tanh (fst s4)\<bar> * 1"
    using sigmoid_lt_1 [of "(snd s3 * wo1 self) + (X ! 3 * wo2 self)"]
    by (intro mult_left_mono) simp_all
  finally show ?thesis using t y by simp
qed

text \<open>
  Claim C9. \<open>forward\<close> reads indices 0 to 3 only. On an input of at least 4 elements it
  returns, and its result is that on the first 4 elements alone; on an input of fewer
  than 4 elements the indexing raises \<open>IndexError\<close>.
\<close>

theorem forward_reads_first_four:
  "(4 \<le> length X \<longrightarrow>
      (\<exists>y. LSTM_forward self X = Inr y) \<and> LSTM_forward self X = LSTM_forward self (take 4 X))
   \<and> (length X < 4 \<longrightarrow> LSTM_forward self X = Inl IndexError)"
proof (intro conjI impI)
  assume len: "4 \<le> length X"
  show "\<exists>y. LSTM_forward self X = Inr y"
    using forward_long_enough [OF len] by blast
  have "4 \<le> length (take 4 X)" using len by simp
  then have "LSTM_forward self (take 4 X) =
      Inr (snd (four_steps self (take 4 X ! 0) (take 4 X ! 1) (take 4 X ! 2) (take 4 X ! 3)))"
    by (rule forward_long_enough)
  then show "LSTM_forward self X = LSTM_forward self (take 4 X)"
    using forward_long_enough [OF len, of self] by simp
next
  assume "length X < 4"
  then show "LSTM_forward self X = Inl IndexError" by (rule forward_too_short)
qed

theorem forward_reads_first_four_witness:
  "(\<exists>y. LSTM_forward lstm_initial (company_A @ [7, 8]) = Inr y)
   \<and> LSTM_forward lstm_initial (company_A @ [7, 8]) = LSTM_forward lstm_initial company_A
   \<and> LSTM_forward lstm_initial [0, 1 / 2, 1 / 4] = Inl IndexError"
proof -
  have long: "4 \<le> length (company_A @ [7, 8])"
    and first: "take 4 (company_A @ [7, 8]) = company_A"
    by (simp_all add: company_A_def)
  have short: "length [0, 1 / 2, 1 / 4 :: real] < 4" by simp
  from forward_reads_first_four [of "company_A @ [7, 8]" lstm_initial] long
  have "(\<exists>y. LSTM_forward lstm_initial (company_A @ [7, 8]) = Inr y)
      \<and> LSTM_forward lstm_initial (company_A @ [7, 8])
          = LSTM_forward lstm_initial (take 4 (company_A @ [7, 8]))"
    by blast
  then have 1: "(\<exists>y. LSTM_forward lstm_initial (company_A @ [7, 8]) = Inr y)
      \<and> LSTM_forward lstm_initial (company_A @ [7, 8]) = LSTM_forward lstm_initial company_A"
    unfolding first .
  from forward_reads_first_four [of "[0, 1 / 2, 1 / 4]" lstm_initial] short
  have 2: "LSTM_forward lstm_initial [0, 1 / 2, 1 / 4] = Inl IndexError"
    by blast
  from 1 2 show ?thesis by blast
qed

text \<open>
  Claim C10. The parameter \<open>bo1\<close> is declared and never read: changing it, with the other
  parameters and the input unchanged, does not change what \<open>forward\<close> returns.
\<close>

theorem forward_ignores_bo1:
  "LSTM_forward (self\<lparr>bo1 := a\<rparr>) X = LSTM_forward (self\<lparr>bo1 := b\<rparr>) X"
  by (simp add: LSTM_forward_def lstm_unit_def)

section \<open>Properties of the positional encoding\<close>

lemma length_slice_step2: "length (slice_step2 start n) = (n - start + 1) div 2"
  by (simp add: slice_step2_def)



text \<open>The constructor raises exactly for an odd \<open>d_model\<close> other than 1: the cosine
  columns are then one more than the odd slice of the table has.\<close>

lemma PositionEncoding_init_succeeds:
  "(\<exists>self. PositionEncoding_init d max_len = Inr self) \<longleftrightarrow> even d \<or> d = 1"
proof -
  have "(d + 1) div 2 = (d - 1 + 1) div 2 \<or> (d + 1) div 2 = 1 \<longleftrightarrow> even d \<or> d = 1"
    by presburger
  then show ?thesis
    by (simp add: PositionEncoding_init_def Let_def ebind_def setitem_cols_def
          length_slice_step2)
qed



lemma upt_0_2: "[0..<2] = [0, 1]" and upt_0_6: "[0..<6] = [0, 1, 2, 3, 4, 5]"
  by (simp_all add: upt_rec)




section \<open>The causal mask does not mask\<close>

text \<open>
  \<open>masked_fill\<close> writes \<open>1e-9\<close> into the similarities of later positions. After the
  softmax such an entry weighs \<open>exp 1e-9 / Z\<close>, about as much as a similarity of 0; a
  weight of 0 would need a fill value of minus infinity (or \<open>-1e9\<close>).
\<close>

lemma causal_mask_2: "causal_mask 2 = [[False, True], [False, False]]"
  by (simp add: causal_mask_def tril_ones_def upt_0_2)

lemma causal_mask_Suc2: "causal_mask (Suc (Suc 0)) = [[False, True], [False, False]]"
  using causal_mask_2 by (simp add: eval_nat_numeral)

lemma toy_embedding:
  "Embedding_forward (we toy_model) [0, t] =
     (if t = 0 \<or> t = 1 then Inr [[0, 0], [if t = 0 then 0 else 1, 0]] else Inl IndexError)"
  by (auto simp add: Embedding_forward_def toy_model_def)

lemma notebook_pe_forward:
  "PositionEncoding_forward notebook_pe [[a, b], [c, d]] =
     Inr [[a, b + 1], [c + sin 1, d + cos 1]]"
  by (simp add: PositionEncoding_forward_def notebook_pe_def tensor_add_def broadcast2_def
        bzip_def ebind_def)

lemma toy_attention_percents:
  "attention_percents toy_attention [[a, b], [c, d]] [[a, b], [c, d]] [[a, b], [c, d]]
     (Some [[False, True], [False, False]])
   = Inr [[1 / (1 + exp (1 / 10 ^ 9)), exp (1 / 10 ^ 9) / (1 + exp (1 / 10 ^ 9))],
          [1 / 2, 1 / 2]]"
  by (simp add: attention_percents_def toy_attention_def Linear_forward_def ebind_def dot_def
        matmul_transposed_def masked_fill_def broadcast2_def bzip_def
        softmax_dim1_def softmax_def Let_def)

lemma toy_attention_forward:
  "Attention_forward toy_attention [[a, b], [c, d]] [[a, b], [c, d]] [[a, b], [c, d]]
     (Some [[False, True], [False, False]])
   = Inr [[1 / (1 + exp (1 / 10 ^ 9)) * a + exp (1 / 10 ^ 9) / (1 + exp (1 / 10 ^ 9)) * c,
           1 / (1 + exp (1 / 10 ^ 9)) * b + exp (1 / 10 ^ 9) / (1 + exp (1 / 10 ^ 9)) * d],
          [1 / 2 * a + 1 / 2 * c, 1 / 2 * b + 1 / 2 * d]]"
  unfolding Attention_forward_def toy_attention_percents
  by (simp add: toy_attention_def Linear_forward_def ebind_def dot_def matmul_def upt_0_2)

lemma toy_forward_00:
  "DecoderTransformer_forward toy_model [0, 0] =
     Inr [[exp (1 / 10 ^ 9) * sin 1 / (1 + exp (1 / 10 ^ 9)),
           1 + (1 / (1 + exp (1 / 10 ^ 9)) + exp (1 / 10 ^ 9) * cos 1 / (1 + exp (1 / 10 ^ 9)))],
          [3 * sin 1 / 2, 3 * cos 1 / 2 + 1 / 2]]"
  by (simp add: DecoderTransformer_forward_def toy_embedding ebind_def)
     (simp add: toy_model_def notebook_pe_forward causal_mask_Suc2 toy_attention_forward
        tensor_add_def broadcast2_def bzip_def ebind_def Linear_forward_def dot_def)

lemma toy_forward_01:
  "DecoderTransformer_forward toy_model [0, 1] =
     Inr [[exp (1 / 10 ^ 9) * (1 + sin 1) / (1 + exp (1 / 10 ^ 9)),
           1 + (1 / (1 + exp (1 / 10 ^ 9)) + exp (1 / 10 ^ 9) * cos 1 / (1 + exp (1 / 10 ^ 9)))],
          [1 + sin 1 + (1 + sin 1) / 2, 3 * cos 1 / 2 + 1 / 2]]"
  by (simp add: DecoderTransformer_forward_def toy_embedding ebind_def)
     (simp add: toy_model_def notebook_pe_forward causal_mask_Suc2 toy_attention_forward
        tensor_add_def broadcast2_def bzip_def ebind_def Linear_forward_def dot_def)

lemma toy_attention_00:
  "DecoderTransformer_attention toy_model [0, 0] =
     Inr [[1 / (1 + exp (1 / 10 ^ 9)), exp (1 / 10 ^ 9) / (1 + exp (1 / 10 ^ 9))],
          [1 / 2, 1 / 2]]"
  by (simp add: DecoderTransformer_attention_def toy_embedding ebind_def)
     (simp add: toy_model_def notebook_pe_forward causal_mask_Suc2 toy_attention_percents)

lemma more_than_half: "1 < c \<Longrightarrow> 1 / 2 < c / (1 + c)" for c :: real
  by (simp add: field_simps)

text \<open>
  Claim C1 (fails on the code). On the token sequences \<open>[0, 0]\<close> and \<open>[0, 1]\<close>, which agree
  at position 0 and have the same length, \<open>DecoderTransformer.forward\<close> of the toy model
  returns different logits at position 0: the output at a position depends on a later
  token.
\<close>

theorem forward_depends_on_later_token:
  "\<exists>out out'. DecoderTransformer_forward toy_model [0, 0] = Inr out
      \<and> DecoderTransformer_forward toy_model [0, 1] = Inr out'
      \<and> out ! 0 \<noteq> out' ! 0"
proof -
  define c :: real where "c = exp (1 / 10 ^ 9)"
  have "0 < c" by (simp add: c_def)
  then have "c * sin 1 / (1 + c) \<noteq> c * (1 + sin 1) / (1 + c)"
    by (simp add: field_simps)
  then show ?thesis
    unfolding toy_forward_00 toy_forward_01 c_def by simp
qed

text \<open>
  Claim C2 (fails on the code). On the token sequence \<open>[0, 0]\<close> the attention-weight matrix
  inside the toy model's forward pass gives the masked entry \<open>(0, 1)\<close>, a later position,
  a weight above one half.
\<close>

theorem masked_weight_exceeds_half:
  "\<exists>P. DecoderTransformer_attention toy_model [0, 0] = Inr P \<and> 1 / 2 < P ! 0 ! 1"
proof -
  have "1 < exp (1 / 10 ^ 9 :: real)" by simp
  then have "1 / 2 < exp (1 / 10 ^ 9 :: real) / (1 + exp (1 / 10 ^ 9))"
    by (rule more_than_half)
  then show ?thesis unfolding toy_attention_00 by simp
qed

section \<open>The softmax normalisation\<close>

lemma sum_exp_pos: "xs \<noteq> [] \<Longrightarrow> 0 < sum_list (map exp (xs :: real list))"
proof (cases xs)
  case Nil
  moreover assume "xs \<noteq> []"
  ultimately show ?thesis by simp
next
  case (Cons a ys)
  have "0 \<le> sum_list (map exp ys)" by (rule sum_list_nonneg) auto
  then show ?thesis using Cons by (simp add: add_pos_nonneg)
qed

lemma softmax_sum: "xs \<noteq> [] \<Longrightarrow> sum_list (softmax xs) = 1"
proof -
  assume ne: "xs \<noteq> []"
  have "sum_list (map (\<lambda>x. exp x / Z) xs) = sum_list (map exp xs) / Z" for Z
    by (induction xs) (simp_all add: add_divide_distrib)
  then have "sum_list (softmax xs) = sum_list (map exp xs) / sum_list (map exp xs)"
    unfolding softmax_def by simp
  then show ?thesis using sum_exp_pos [OF ne] by simp
qed

lemma softmax_pos: "x \<in> set (softmax xs) \<Longrightarrow> 0 < x"
proof -
  assume x: "x \<in> set (softmax xs)"
  then have "xs \<noteq> []" by (auto simp: softmax_def)
  then have "0 < sum_list (map exp xs)" by (rule sum_exp_pos)
  with x show ?thesis by (auto simp: softmax_def)
qed

lemma attention_percents_softmax:
  assumes "attention_percents self eq ek ev m = Inr P"
  shows "\<exists>S. P = softmax_dim1 S"
  using assms
  by (auto simp: attention_percents_def ebind_def Let_def split: sum.splits)

lemma attention_row_sum:
  assumes P: "attention_percents self eq ek ev m = Inr P"
    and row: "row \<in> set P" and ne: "row \<noteq> []"
  shows "sum_list row = 1"
proof -
  from attention_percents_softmax [OF P] obtain S where "P = softmax_dim1 S" ..
  with row obtain r where "row = softmax r"
    by (auto simp: softmax_dim1_def)
  moreover from this ne have "r \<noteq> []" by (auto simp: softmax_def)
  ultimately show ?thesis by (simp add: softmax_sum)
qed

subsection \<open>Which rows are empty\<close>

lemma collect_Inr:
  "collect rs = Inr xs \<Longrightarrow> rs = map Inr xs"
proof (induction rs arbitrary: xs)
  case Nil
  then show ?case by simp
next
  case (Cons r rs)
  then show ?case by (auto split: sum.splits)
qed

lemma bzip_members:
  assumes "bzip xs ys = Inr zs" and "z \<in> set zs"
  shows "fst z \<in> set xs \<and> snd z \<in> set ys"
proof -
  have one: "length us = 1 \<Longrightarrow> hd us \<in> set us" for us :: "'c list"
    by (cases us) simp_all
  from assms show ?thesis
    by (cases z) (auto simp: bzip_def one split: if_splits dest: set_zip_leftD set_zip_rightD)
qed

lemma bzip_nonempty:
  assumes "bzip xs ys = Inr zs" and "xs \<noteq> []" and "ys \<noteq> []"
  shows "zs \<noteq> []"
  using assms by (auto simp: bzip_def split: if_splits)

lemma broadcast2_rows_nonempty:
  assumes "broadcast2 f A B = Inr C" and "[] \<notin> set A" and "[] \<notin> set B" 
  shows "[] \<notin> set C"
proof
  assume "[] \<in> set C"
  from assms(1) obtain rows where rows: "bzip A B = Inr rows"
    and C: "collect (map (\<lambda>(a, b). ebind (bzip a b) (\<lambda>cs. Inr (map (\<lambda>(x, y). f x y) cs))) rows)
              = Inr C"
    by (auto simp: broadcast2_def ebind_def split: sum.splits)
  from collect_Inr [OF C] \<open>[] \<in> set C\<close>
  have "Inr [] \<in> set (map (\<lambda>(a, b). ebind (bzip a b) (\<lambda>cs. Inr (map (\<lambda>(x, y). f x y) cs))) rows)"
    by auto
  then obtain a b where ab: "(a, b) \<in> set rows"
    and e: "ebind (bzip a b) (\<lambda>cs. Inr (map (\<lambda>(x, y). f x y) cs)) = Inr []"
    by auto
  from bzip_members [OF rows ab] assms(2,3) have "a \<noteq> []" "b \<noteq> []" by auto
  moreover from e have "bzip a b = Inr []"
    by (auto simp: ebind_def split: sum.splits)
  ultimately show False using bzip_nonempty by blast
qed

lemma Linear_forward_length:
  "Linear_forward L x = Inr y \<Longrightarrow> length y = length x"
  by (auto simp: Linear_forward_def split: if_splits)

lemma attention_rows_nonempty:
  assumes P: "attention_percents self eq ek ev m = Inr P"
    and keys: "ek \<noteq> []"
    and mask_rows: "\<forall>M. m = Some M \<longrightarrow> [] \<notin> set M"
  shows "[] \<notin> set P"
proof -
  from P obtain q k sims S where
    k: "Linear_forward (W_k self) ek = Inr k" and
    sims: "matmul_transposed q k = Inr sims" and
    S: "(case m of None \<Rightarrow> Inr (map (map (\<lambda>s. s / sqrt (real (length (weight (W_k self)))))) sims)
         | Some M \<Rightarrow> masked_fill (map (map (\<lambda>s. s / sqrt (real (length (weight (W_k self)))))) sims)
                      M (1 / 10 ^ 9)) = Inr S" and
    PS: "P = softmax_dim1 S"
    by (auto simp: attention_percents_def ebind_def Let_def split: sum.splits)
  let ?scaled = "map (map (\<lambda>s. s / sqrt (real (length (weight (W_k self)))))) sims"
  have "k \<noteq> []" using Linear_forward_length [OF k] keys by auto
  then have "[] \<notin> set sims"
    using sims by (auto simp: matmul_transposed_def split: if_splits)
  then have scaled: "[] \<notin> set ?scaled" by auto
  have "[] \<notin> set S"
  proof (cases m)
    case None
    with S scaled show ?thesis by simp
  next
    case (Some M)
    with S have "masked_fill ?scaled M (1 / 10 ^ 9) = Inr S"
      by simp
    from broadcast2_rows_nonempty [OF this [unfolded masked_fill_def] scaled] mask_rows Some
    show ?thesis by simp
  qed
  then show ?thesis by (auto simp: PS softmax_dim1_def softmax_def)
qed

lemma causal_mask_rows: "[] \<notin> set (causal_mask n)"
  by (auto simp: causal_mask_def tril_ones_def)


lemma bzip_Nil: "bzip [] ys = Inr zs \<Longrightarrow> zs = []"
  by (auto simp: bzip_def split: if_splits)

lemma broadcast2_Nil: "broadcast2 f [] B = Inr C \<Longrightarrow> C = []"
  by (auto simp: broadcast2_def ebind_def split: sum.splits dest!: bzip_Nil)

lemma attention_no_queries:
  assumes "attention_percents self [] ek ev m = Inr P"
  shows "P = []"
proof -
  from assms obtain sims S where
    sims: "matmul_transposed [] (projr (Linear_forward (W_k self) ek)) = Inr sims" and
    S: "(case m of None \<Rightarrow> Inr (map (map (\<lambda>s. s / sqrt (real (length (weight (W_k self)))))) sims)
         | Some M \<Rightarrow> masked_fill (map (map (\<lambda>s. s / sqrt (real (length (weight (W_k self)))))) sims)
                      M (1 / 10 ^ 9)) = Inr S" and
    PS: "P = softmax_dim1 S"
    by (auto simp: attention_percents_def Linear_forward_def ebind_def Let_def
          split: sum.splits if_splits)
  from sims have "sims = []" by (simp add: matmul_transposed_def)
  with S have "S = []"
    by (cases m) (auto simp: masked_fill_def dest: broadcast2_Nil)
  then show ?thesis by (simp add: PS softmax_dim1_def)
qed

lemma attention_equal_lengths_row_sum:
  assumes P: "attention_percents self eq ek ev m = Inr P"
    and lengths: "length eq = length ek"
    and mask_rows: "\<forall>M. m = Some M \<longrightarrow> [] \<notin> set M"
    and row: "row \<in> set P"
  shows "sum_list row = 1"
proof -
  have "eq \<noteq> []"
  proof
    assume "eq = []"
    with P have "P = []" using attention_no_queries by blast
    with row show False by simp
  qed
  with lengths have "ek \<noteq> []" by auto
  then have "[] \<notin> set P" using attention_rows_nonempty [OF P] mask_rows by blast
  with row have "row \<noteq> []" by auto
  with P row show ?thesis by (rule attention_row_sum)
qed

subsection \<open>When the attention-weight matrix is computed\<close>

text \<open>On tensors of the shapes the modules are built for (rows of \<open>d\<close> entries, the three
  maps without bias and with \<open>d\<close> inputs, queries and keys of one length, no mask or the
  causal mask of that length) \<open>Attention.forward\<close> raises nothing before the softmax and the
  matrix has one row per query.\<close>

lemma ebind_Inr: "ebind (Inr x) f = f x"
  by (simp add: ebind_def)

lemma collect_map_Inr: "collect (map Inr xs) = Inr xs"
  by (induction xs) simp_all

lemma broadcast2_same_shape:
  assumes rows: "length A = length B"
    and cols: "\<forall>(a, b) \<in> set (zip A B). length a = length b"
  shows "broadcast2 f A B = Inr (map (\<lambda>(a, b). map (\<lambda>(x, y). f x y) (zip a b)) (zip A B))"
proof -
  have "map (\<lambda>(a, b). ebind (bzip a b) (\<lambda>cs. Inr (map (\<lambda>(x, y). f x y) cs))) (zip A B)
      = map Inr (map (\<lambda>(a, b). map (\<lambda>(x, y). f x y) (zip a b)) (zip A B))"
    using cols by (auto simp: bzip_def ebind_def)
  then show ?thesis
    using rows by (simp add: broadcast2_def bzip_def ebind_def collect_map_Inr del: map_map)
qed

lemma Linear_forward_no_bias:
  assumes "bias L = None"
    and "\<forall>r \<in> set x. length r = d" and "\<forall>w \<in> set (weight L). length w = d"
  shows "Linear_forward L x = Inr (map (\<lambda>r. map (\<lambda>w. dot r w) (weight L)) x)"
  using assms by (simp add: Linear_forward_def)

lemma causal_mask_shape:
  "length (causal_mask n) = n" "\<forall>r \<in> set (causal_mask n). length r = n"
  by (auto simp: causal_mask_def tril_ones_def)

lemma attention_percents_succeeds:
  assumes no_bias: "bias (W_q self) = None" "bias (W_k self) = None" "bias (W_v self) = None"
    and inputs: "\<forall>r \<in> set encodings_for_q \<union> set encodings_for_k \<union> set encodings_for_v.
                   length r = d"
    and weights: "\<forall>w \<in> set (weight (W_q self)) \<union> set (weight (W_k self))
                        \<union> set (weight (W_v self)). length w = d"
    and width: "length (weight (W_q self)) = length (weight (W_k self))"
    and lengths: "length encodings_for_q = length encodings_for_k"
    and mask_shape: "m = None \<or> m = Some (causal_mask (length encodings_for_k))"
  shows "\<exists>P. attention_percents self encodings_for_q encodings_for_k encodings_for_v m = Inr P
             \<and> length P = length encodings_for_q"
proof -
  let ?q = "map (\<lambda>r. map (\<lambda>w. dot r w) (weight (W_q self))) encodings_for_q"
  let ?k = "map (\<lambda>r. map (\<lambda>w. dot r w) (weight (W_k self))) encodings_for_k"
  let ?v = "map (\<lambda>r. map (\<lambda>w. dot r w) (weight (W_v self))) encodings_for_v"
  let ?sims = "map (\<lambda>a. map (\<lambda>b. dot a b) ?k) ?q"
  let ?scaled = "map (map (\<lambda>s. s / sqrt (real (length (weight (W_k self)))))) ?sims"
  have q: "Linear_forward (W_q self) encodings_for_q = Inr ?q"
    and k: "Linear_forward (W_k self) encodings_for_k = Inr ?k"
    and v: "Linear_forward (W_v self) encodings_for_v = Inr ?v"
    using no_bias inputs weights by (simp_all add: Linear_forward_no_bias [where d = d])
  have sims: "matmul_transposed ?q ?k = Inr ?sims"
    using width by (auto simp: matmul_transposed_def)
  have filled: "\<exists>S. (case m of None \<Rightarrow> Inr ?scaled
                     | Some M \<Rightarrow> masked_fill ?scaled M (1 / 10 ^ 9)) = Inr S
                  \<and> length S = length encodings_for_q"
  proof (cases m)
    case None
    then show ?thesis by simp
  next
    case (Some M)
    with mask_shape have M: "M = causal_mask (length encodings_for_k)" by simp
    have rows: "length ?scaled = length M"
      using lengths by (simp add: M causal_mask_shape)
    have cols: "\<forall>(a, b) \<in> set (zip ?scaled M). length a = length b"
    proof (clarify)
      fix a b assume "(a, b) \<in> set (zip ?scaled M)"
      then have "a \<in> set ?scaled" and "b \<in> set M"
        by (auto dest: set_zip_leftD set_zip_rightD)
      then have "length a = length encodings_for_k" and "length b = length encodings_for_k"
        using causal_mask_shape(2) [of "length encodings_for_k"] by (auto simp: M)
      then show "length a = length b" by simp
    qed
    have "masked_fill ?scaled M (1 / 10 ^ 9)
        = Inr (map (\<lambda>(a, b). map (\<lambda>(x, y). if y then 1 / 10 ^ 9 else x) (zip a b))
                 (zip ?scaled M))"
      unfolding masked_fill_def by (rule broadcast2_same_shape [OF rows cols])
    moreover have "length (map (\<lambda>(a, b). map (\<lambda>(x, y). if y then 1 / 10 ^ 9 else x) (zip a b))
                 (zip ?scaled M)) = length encodings_for_q"
      using rows by simp
    ultimately show ?thesis using Some by simp
  qed
  then obtain S where S: "(case m of None \<Rightarrow> Inr ?scaled
                     | Some M \<Rightarrow> masked_fill ?scaled M (1 / 10 ^ 9)) = Inr S"
    and len: "length S = length encodings_for_q" by blast
  have "attention_percents self encodings_for_q encodings_for_k encodings_for_v m
          = Inr (softmax_dim1 S)"
    by (simp only: attention_percents_def Let_def q k v sims ebind_Inr S)
  then show ?thesis using len by (simp add: softmax_dim1_def)
qed

lemma toy_attention_succeeds:
  "\<exists>P. attention_percents toy_attention [[a, b], [c, d]] [[a, b], [c, d]] [[a, b], [c, d]]
          (Some (causal_mask 2)) = Inr P \<and> length P = length [[a, b], [c, d]]"
  using attention_percents_succeeds [of toy_attention "[[a, b], [c, d]]" "[[a, b], [c, d]]"
          "[[a, b], [c, d]]" 2 "Some (causal_mask 2)"]
  by (simp add: toy_attention_def causal_mask_2 causal_mask_Suc2)




subsection \<open>The decoder's own call\<close>

text \<open>\<open>DecoderTransformer.forward\<close> passes the same tensor as queries and keys and the
  causal mask, so there every row of the attention-weight matrix sums to 1.\<close>

lemma decoder_attention_rows_sum_to_one:
  assumes P: "DecoderTransformer_attention model token_ids = Inr P"
    and row: "row \<in> set P"
  shows "sum_list row = 1"
proof -
  from P obtain X where
    att: "attention_percents (self_attention model) X X X
            (Some (causal_mask (length token_ids))) = Inr P"
    by (auto simp: DecoderTransformer_attention_def ebind_def split: sum.splits)
  have "\<forall>M. Some (causal_mask (length token_ids)) = Some M \<longrightarrow> [] \<notin> set M"
    using causal_mask_rows by auto
  with att show ?thesis using row by (rule attention_equal_lengths_row_sum [OF _ refl])
qed

section \<open>The generation loop\<close>

text \<open>\<open>argmax\<close> returns the first index of a maximal entry.\<close>

lemma argmax_from_first_max:
  assumes "length pre = i" and "best_i < i" and "pre ! best_i = best"
    and "\<forall>y \<in> set pre. y \<le> best" and "\<forall>j<best_i. pre ! j < best"
  shows "argmax_from best best_i i xs < length (pre @ xs)
       \<and> (\<forall>y \<in> set (pre @ xs). y \<le> (pre @ xs) ! argmax_from best best_i i xs)
       \<and> (\<forall>j<argmax_from best best_i i xs.
             (pre @ xs) ! j < (pre @ xs) ! argmax_from best best_i i xs)"
  using assms
proof (induction xs arbitrary: pre i best best_i)
  case Nil
  then show ?case by auto
next
  case (Cons x xs)
  show ?case
  proof (cases "best < x")
    case True
    have "argmax_from x i (Suc i) xs < length ((pre @ [x]) @ xs)
       \<and> (\<forall>y \<in> set ((pre @ [x]) @ xs). y \<le> ((pre @ [x]) @ xs) ! argmax_from x i (Suc i) xs)
       \<and> (\<forall>j<argmax_from x i (Suc i) xs.
             ((pre @ [x]) @ xs) ! j < ((pre @ [x]) @ xs) ! argmax_from x i (Suc i) xs)"
    proof (rule Cons.IH)
      show "length (pre @ [x]) = Suc i" using Cons.prems by simp
      show "i < Suc i" by simp
      show "(pre @ [x]) ! i = x" using Cons.prems by (simp add: nth_append)
      show "\<forall>y \<in> set (pre @ [x]). y \<le> x" using Cons.prems True by fastforce
      show "\<forall>j<i. (pre @ [x]) ! j < x"
      proof (intro allI impI)
        fix j assume "j < i"
        then have "pre ! j \<in> set pre" using Cons.prems by simp
        then have "pre ! j \<le> best" using Cons.prems by blast
        then have "pre ! j < x" using True by linarith
        then show "(pre @ [x]) ! j < x" using \<open>j < i\<close> Cons.prems(1) by (simp add: nth_append)
      qed
    qed
    with True show ?thesis by simp
  next
    case False
    have "argmax_from best best_i (Suc i) xs < length ((pre @ [x]) @ xs)
       \<and> (\<forall>y \<in> set ((pre @ [x]) @ xs). y \<le> ((pre @ [x]) @ xs) ! argmax_from best best_i (Suc i) xs)
       \<and> (\<forall>j<argmax_from best best_i (Suc i) xs.
             ((pre @ [x]) @ xs) ! j < ((pre @ [x]) @ xs) ! argmax_from best best_i (Suc i) xs)"
    proof (rule Cons.IH)
      show "length (pre @ [x]) = Suc i" using Cons.prems by simp
      show "best_i < Suc i" using Cons.prems by simp
      show "(pre @ [x]) ! best_i = best" using Cons.prems by (simp add: nth_append)
      show "\<forall>y \<in> set (pre @ [x]). y \<le> best" using Cons.prems False by auto
      show "\<forall>j<best_i. (pre @ [x]) ! j < best" using Cons.prems by (simp add: nth_append)
    qed
    with False show ?thesis by simp
  qed
qed

lemma argmax_first_max:
  assumes "argmax xs = Inr k"
  shows "k < length xs \<and> (\<forall>y \<in> set xs. y \<le> xs ! k) \<and> (\<forall>j<k. xs ! j < xs ! k)"
proof (cases xs)
  case Nil
  with assms show ?thesis by (simp add: argmax_def)
next
  case (Cons x rest)
  with assms have k: "k = argmax_from x 0 1 rest" by (simp add: argmax_def)
  from argmax_from_first_max [of "[x]" 1 0 x rest]
  show ?thesis unfolding k Cons by simp
qed

lemma EOS_id: "the (token_to_id ''<EOS>'') = 4"
  by (simp add: token_to_id_def)

lemma predict_loop_passes: "fst (predict_loop model idxs s) \<le> length idxs"
proof (induction idxs arbitrary: s)
  case Nil
  show ?case by simp
next
  case (Cons i rest)
  show ?case
  proof (cases "predicted_id s = the (token_to_id ''<EOS>'')")
    case True
    then show ?thesis by simp
  next
    case False
    show ?thesis
    proof (cases "ebind (DecoderTransformer_forward model (model_input s @ [predicted_id s]))
                    argmax_last")
      case (Inl e)
      with False show ?thesis by (simp add: Let_def)
    next
      case (Inr p)
      with False Cons.IH [of "\<lparr>model_input = model_input s @ [predicted_id s],
          predicted_id = p, predicted_ids = predicted_ids s @ [p]\<rparr>"]
      show ?thesis by (simp add: Let_def split_beta)
    qed
  qed
qed

lemma predict_loop_spec:
  assumes "predict_loop model idxs s = (k, Inr s')"
  shows "\<exists>new. predicted_ids s' = predicted_ids s @ new \<and> length new = k
      \<and> model_input s' = model_input s @ butlast (predicted_id s # new)
      \<and> predicted_id s' = last (predicted_id s # new)
      \<and> (\<forall>j<k. ebind (DecoderTransformer_forward model
                        (model_input s @ take (Suc j) (predicted_id s # new))) argmax_last
                 = Inr (new ! j))
      \<and> (\<forall>j<k. (predicted_id s # new) ! j \<noteq> the (token_to_id ''<EOS>''))
      \<and> (k = length idxs \<or> predicted_id s' = the (token_to_id ''<EOS>''))"
  using assms
proof (induction idxs arbitrary: s k)
  case Nil
  then show ?case by simp
next
  case (Cons i rest)
  show ?case
  proof (cases "predicted_id s = the (token_to_id ''<EOS>'')")
    case True
    with Cons.prems show ?thesis by simp
  next
    case False
    let ?input = "model_input s @ [predicted_id s]"
    show ?thesis
    proof (cases "ebind (DecoderTransformer_forward model ?input) argmax_last")
      case (Inl e)
      with False Cons.prems show ?thesis by (simp add: Let_def)
    next
      case (Inr p)
      let ?s1 = "\<lparr>model_input = ?input, predicted_id = p,
                  predicted_ids = predicted_ids s @ [p]\<rparr>"
      obtain k' where run: "predict_loop model rest ?s1 = (k', Inr s')" and k: "k = Suc k'"
        using False Inr Cons.prems by (auto simp: Let_def split: prod.splits)
      from Cons.IH [OF run] obtain new where
        ids: "predicted_ids s' = (predicted_ids s @ [p]) @ new" and
        len: "length new = k'" and
        inp: "model_input s' = ?input @ butlast (p # new)" and
        lst: "predicted_id s' = last (p # new)" and
        fwd: "\<forall>j<k'. ebind (DecoderTransformer_forward model
                        (?input @ take (Suc j) (p # new))) argmax_last = Inr (new ! j)" and
        eos: "\<forall>j<k'. (p # new) ! j \<noteq> the (token_to_id ''<EOS>'')" and
        stop: "k' = length rest \<or> predicted_id s' = the (token_to_id ''<EOS>'')"
        by auto
      have "predicted_ids s' = predicted_ids s @ (p # new)" using ids by simp
      moreover have "length (p # new) = k" using len k by simp
      moreover have "model_input s' = model_input s @ butlast (predicted_id s # p # new)"
        using inp by simp
      moreover have "predicted_id s' = last (predicted_id s # p # new)" using lst by simp
      moreover have "\<forall>j<k. ebind (DecoderTransformer_forward model
              (model_input s @ take (Suc j) (predicted_id s # p # new))) argmax_last
            = Inr ((p # new) ! j)"
        using fwd Inr k by (auto simp: less_Suc_eq_0_disj)
      moreover have "\<forall>j<k. (predicted_id s # p # new) ! j \<noteq> the (token_to_id ''<EOS>'')"
        using eos False k by (auto simp: less_Suc_eq_0_disj)
      moreover have "k = length (i # rest) \<or> predicted_id s' = the (token_to_id ''<EOS>'')"
        using stop k by auto
      ultimately show ?thesis by blast
    qed
  qed
qed


text \<open>
  Claim C5. For every model and every seed, the loop of \<open>predict\<close> starts at most
  \<open>6 - input_length\<close> forward passes after the first one. When \<open>predict\<close> reaches the end
  of the loop with the tokens \<open>predicted_ids\<close>: one pass was made per token after the
  first; the model's input has grown by all of them but the last; token \<open>j\<close> is the argmax
  of the last row of the forward pass over the seed followed by the tokens before \<open>j\<close>;
  no token before the last is \<open><EOS>\<close>; and the last token is \<open><EOS>\<close> or the loop has
  run \<open>6 - input_length\<close> times.
\<close>

theorem predict_bounded_generation:
  "fst (predict_generate model xs) \<le> 6 - length xs
   \<and> (\<forall>s. snd (predict_generate model xs) = Inr s \<longrightarrow>
        length (predicted_ids s) = Suc (fst (predict_generate model xs))
      \<and> model_input s = xs @ butlast (predicted_ids s)
      \<and> (\<forall>j<length (predicted_ids s).
            ebind (DecoderTransformer_forward model (xs @ take j (predicted_ids s))) argmax_last
              = Inr (predicted_ids s ! j))
      \<and> (\<forall>j<length (predicted_ids s) - 1. predicted_ids s ! j \<noteq> the (token_to_id ''<EOS>''))
      \<and> (last (predicted_ids s) = the (token_to_id ''<EOS>'')
           \<or> length (predicted_ids s) = Suc (6 - length xs)))"
proof (cases "ebind (DecoderTransformer_forward model xs) argmax_last")
  case (Inl e)
  then show ?thesis by (simp add: predict_generate_def)
next
  case (Inr p)
  let ?s0 = "\<lparr>model_input = xs, predicted_id = p, predicted_ids = [p]\<rparr>"
  have gen: "predict_generate model xs = predict_loop model [length xs..<6] ?s0"
    using Inr by (simp add: predict_generate_def Let_def)
  have bound: "fst (predict_generate model xs) \<le> 6 - length xs"
    using predict_loop_passes [of model "[length xs..<6]" ?s0] gen by simp
  have "length (predicted_ids s) = Suc (fst (predict_generate model xs))
      \<and> model_input s = xs @ butlast (predicted_ids s)
      \<and> (\<forall>j<length (predicted_ids s).
            ebind (DecoderTransformer_forward model (xs @ take j (predicted_ids s))) argmax_last
              = Inr (predicted_ids s ! j))
      \<and> (\<forall>j<length (predicted_ids s) - 1. predicted_ids s ! j \<noteq> the (token_to_id ''<EOS>''))
      \<and> (last (predicted_ids s) = the (token_to_id ''<EOS>'')
           \<or> length (predicted_ids s) = Suc (6 - length xs))"
    if ok: "snd (predict_generate model xs) = Inr s" for s
  proof -
    define k where "k = fst (predict_generate model xs)"
    have run: "predict_loop model [length xs..<6] ?s0 = (k, Inr s)"
      using ok gen by (simp add: k_def prod_eq_iff)
    from predict_loop_spec [OF run] obtain new where
      ids: "predicted_ids s = [p] @ new" and
      len: "length new = k" and
      inp: "model_input s = xs @ butlast (p # new)" and
      lst: "predicted_id s = last (p # new)" and
      fwd: "\<forall>j<k. ebind (DecoderTransformer_forward model (xs @ take (Suc j) (p # new)))
                     argmax_last = Inr (new ! j)" and
      eos: "\<forall>j<k. (p # new) ! j \<noteq> the (token_to_id ''<EOS>'')" and
      stop: "k = length [length xs..<6] \<or> predicted_id s = the (token_to_id ''<EOS>'')"
      by auto
    have ps: "predicted_ids s = p # new" using ids by simp
    have "\<forall>j<length (p # new).
            ebind (DecoderTransformer_forward model (xs @ take j (p # new))) argmax_last
              = Inr ((p # new) ! j)"
      using fwd Inr len by (auto simp: less_Suc_eq_0_disj)
    moreover have "last (p # new) = the (token_to_id ''<EOS>'')
        \<or> length (p # new) = Suc (6 - length xs)"
      using stop lst len by auto
    ultimately show ?thesis
      unfolding ps k_def [symmetric] using len inp eos by simp
  qed
  with bound show ?thesis by blast
qed

lemmas forward_defs =
  DecoderTransformer_forward_def constant_model_def Embedding_forward_def
  PositionEncoding_forward_def notebook_pe_def tensor_add_def broadcast2_def bzip_def ebind_def
  causal_mask_def tril_ones_def upt_rec Attention_forward_def attention_percents_def
  Linear_forward_def dot_def matmul_transposed_def matmul_def masked_fill_def softmax_dim1_def
  softmax_def Let_def

lemma argmax_last_rows:
  assumes "rows \<noteq> []"
  shows "argmax_last rows = ebind (argmax (last rows)) (\<lambda>i. Inr (int i))"
proof -
  from assms have len: "1 \<le> length rows" by (cases rows) simp_all
  then have "nat (int (length rows) + - 1) = length rows - 1" by simp
  then have "getitem rows (- 1) = Inr (last rows)"
    using len assms by (simp add: getitem_def last_conv_nth)
  then show ?thesis by (simp add: argmax_last_def ebind_def)
qed

lemma awesome_4:
  "DecoderTransformer_forward always_awesome what_is_kael_EOS =
     Inr [[0, 0, 0, 1, 0], [0, 0, 0, 1, 0], [0, 0, 0, 1, 0], [0, 0, 0, 1, 0]]"
  by (simp add: always_awesome_def what_is_kael_EOS_def forward_defs)

lemma awesome_5:
  "DecoderTransformer_forward always_awesome (what_is_kael_EOS @ [3]) =
     Inr [[0, 0, 0, 1, 0], [0, 0, 0, 1, 0], [0, 0, 0, 1, 0], [0, 0, 0, 1, 0],
          [0, 0, 0, 1, 0]]"
  by (simp add: always_awesome_def what_is_kael_EOS_def forward_defs)

lemma awesome_6:
  "DecoderTransformer_forward always_awesome (what_is_kael_EOS @ [3, 3]) =
     Inr [[0, 0, 0, 1, 0], [0, 0, 0, 1, 0], [0, 0, 0, 1, 0], [0, 0, 0, 1, 0],
          [0, 0, 0, 1, 0], [0, 0, 0, 1, 0]]"
  by (simp add: always_awesome_def what_is_kael_EOS_def forward_defs)

lemma EOS_4:
  "DecoderTransformer_forward always_EOS what_is_kael_EOS =
     Inr [[0, 0, 0, 0, 1], [0, 0, 0, 0, 1], [0, 0, 0, 0, 1], [0, 0, 0, 0, 1]]"
  by (simp add: always_EOS_def what_is_kael_EOS_def forward_defs)

lemma range_4_6: "[length what_is_kael_EOS..<6] = [4, 5]"
  by (simp add: what_is_kael_EOS_def upt_rec)

lemma generate_awesome:
  "predict_generate always_awesome what_is_kael_EOS =
     (2, Inr \<lparr>model_input = what_is_kael_EOS @ [3, 3], predicted_id = 3,
              predicted_ids = [3, 3, 3]\<rparr>)"
  unfolding predict_generate_def Let_def range_4_6
  by (simp add: awesome_4 awesome_5 awesome_6 argmax_last_rows argmax_def
        ebind_def EOS_id Let_def)

lemma generate_EOS:
  "predict_generate always_EOS what_is_kael_EOS =
     (0, Inr \<lparr>model_input = what_is_kael_EOS, predicted_id = 4, predicted_ids = [4]\<rparr>)"
  unfolding predict_generate_def Let_def range_4_6
  by (simp add: EOS_4 argmax_last_rows argmax_def ebind_def EOS_id Let_def)

lemma predict_awesome:
  "predict always_awesome what_is_kael_EOS =
     Inr [CHR 0x09 # '' awesome'', CHR 0x09 # '' awesome'', CHR 0x09 # '' awesome'']"
  by (simp add: predict_def generate_awesome ebind_def id_to_token_def)

theorem predict_bounded_generation_witness:
  "fst (predict_generate always_awesome what_is_kael_EOS) \<le> 6 - length what_is_kael_EOS
   \<and> snd (predict_generate always_awesome what_is_kael_EOS)
       = Inr \<lparr>model_input = what_is_kael_EOS @ [3, 3], predicted_id = 3,
              predicted_ids = [3, 3, 3]\<rparr>
   \<and> length [3, 3, 3 :: int] = Suc (fst (predict_generate always_awesome what_is_kael_EOS))
   \<and> ebind (DecoderTransformer_forward always_awesome (what_is_kael_EOS @ take 2 [3, 3, 3]))
        argmax_last = Inr ([3, 3, 3] ! 2)
   \<and> [3, 3, 3] ! 1 \<noteq> the (token_to_id ''<EOS>'')
   \<and> length [3, 3, 3 :: int] = Suc (6 - length what_is_kael_EOS)
   \<and> fst (predict_generate always_EOS what_is_kael_EOS) \<le> 6 - length what_is_kael_EOS
   \<and> snd (predict_generate always_EOS what_is_kael_EOS)
       = Inr \<lparr>model_input = what_is_kael_EOS, predicted_id = 4, predicted_ids = [4]\<rparr>
   \<and> last [4] = the (token_to_id ''<EOS>'')"
proof -
  let ?s = "\<lparr>model_input = what_is_kael_EOS @ [3, 3], predicted_id = 3,
             predicted_ids = [3, 3, 3]\<rparr>"
  let ?t = "\<lparr>model_input = what_is_kael_EOS, predicted_id = 4, predicted_ids = [4]\<rparr>"
  have a: "snd (predict_generate always_awesome what_is_kael_EOS) = Inr ?s"
    by (simp add: generate_awesome)
  have e: "snd (predict_generate always_EOS what_is_kael_EOS) = Inr ?t"
    by (simp add: generate_EOS)
  have len: "length what_is_kael_EOS = 4" by (simp add: what_is_kael_EOS_def)
  from predict_bounded_generation [of always_awesome what_is_kael_EOS] a
  have 1: "fst (predict_generate always_awesome what_is_kael_EOS) \<le> 6 - length what_is_kael_EOS
      \<and> length (predicted_ids ?s) = Suc (fst (predict_generate always_awesome what_is_kael_EOS))
      \<and> (\<forall>j<length (predicted_ids ?s).
            ebind (DecoderTransformer_forward always_awesome
                     (what_is_kael_EOS @ take j (predicted_ids ?s))) argmax_last
              = Inr (predicted_ids ?s ! j))
      \<and> (\<forall>j<length (predicted_ids ?s) - 1. predicted_ids ?s ! j \<noteq> the (token_to_id ''<EOS>''))"
    by blast
  from 1 have "2 < length (predicted_ids ?s) \<longrightarrow>
      ebind (DecoderTransformer_forward always_awesome
               (what_is_kael_EOS @ take 2 (predicted_ids ?s))) argmax_last
        = Inr (predicted_ids ?s ! 2)"
    by blast
  then have 2: "ebind (DecoderTransformer_forward always_awesome
                     (what_is_kael_EOS @ take 2 [3, 3, 3])) argmax_last = Inr ([3, 3, 3] ! 2)"
    by simp
  from 1 have "1 < length (predicted_ids ?s) - 1 \<longrightarrow>
      predicted_ids ?s ! 1 \<noteq> the (token_to_id ''<EOS>'')"
    by blast
  then have 3: "[3, 3, 3] ! 1 \<noteq> the (token_to_id ''<EOS>'')"
    by simp
  from predict_bounded_generation [of always_EOS what_is_kael_EOS]
  have 4: "fst (predict_generate always_EOS what_is_kael_EOS) \<le> 6 - length what_is_kael_EOS"
    by blast
  show ?thesis
    using 1 2 3 4 a e by (simp add: len EOS_id)
qed

subsection \<open>When the forward pass and the generation return\<close>

text \<open>For a model of the shapes \<open>__init__\<close> creates, the forward pass returns one row of
  \<open>num_tokens\<close> logits per token whenever the token ids are in range and the sequence is
  no longer than \<open>max_len\<close>; and with \<open>max_len \<ge> 6\<close> the generation returns for every
  non-empty seed of at most 6 tokens in range.\<close>

lemma zip_row_lengths:
  assumes "(a, b) \<in> set (zip A B)"
    and "\<forall>r \<in> set A. length r = d" and "\<forall>r \<in> set B. length r = e"
  shows "length a = d \<and> length b = e"
proof -
  from assms(1) have "a \<in> set A" and "b \<in> set B"
    by (rule set_zip_leftD, rule set_zip_rightD)
  with assms(2,3) show ?thesis by blast
qed

lemma attention_percents_row_lengths:
  assumes P: "attention_percents self eq ek ev m = Inr P"
    and m: "m = None \<or> m = Some (causal_mask (length ek))"
    and lengths: "length eq = length ek"
  shows "\<forall>r \<in> set P. length r = length ek"
proof -
  from P obtain q k sims S where
    q: "Linear_forward (W_q self) eq = Inr q" and
    k: "Linear_forward (W_k self) ek = Inr k" and
    sims: "matmul_transposed q k = Inr sims" and
    S: "(case m of None \<Rightarrow> Inr (map (map (\<lambda>s. s / sqrt (real (length (weight (W_k self)))))) sims)
         | Some M \<Rightarrow> masked_fill (map (map (\<lambda>s. s / sqrt (real (length (weight (W_k self)))))) sims)
                      M (1 / 10 ^ 9)) = Inr S" and
    PS: "P = softmax_dim1 S"
    by (auto simp: attention_percents_def ebind_def Let_def split: sum.splits)
  let ?scaled = "map (map (\<lambda>s. s / sqrt (real (length (weight (W_k self)))))) sims"
  have lk: "length k = length ek" and lq: "length q = length eq"
    using Linear_forward_length [OF k] Linear_forward_length [OF q] by simp_all
  have sims_eq: "sims = map (\<lambda>a. map (\<lambda>b. dot a b) k) q"
    using sims by (auto simp: matmul_transposed_def split: if_splits)
  have scaled: "length ?scaled = length ek" "\<forall>r \<in> set ?scaled. length r = length ek"
    using lk lq lengths by (auto simp: sims_eq)
  have "\<forall>r \<in> set S. length r = length ek"
  proof (cases m)
    case None
    with S scaled show ?thesis by auto
  next
    case (Some M)
    with m have M: "M = causal_mask (length ek)" by simp
    have rows: "length ?scaled = length M" using scaled by (simp add: M causal_mask_shape)
    have cols: "\<forall>(a, b) \<in> set (zip ?scaled M). length a = length b"
    proof (clarify)
      fix a b assume "(a, b) \<in> set (zip ?scaled M)"
      then have "a \<in> set ?scaled" and "b \<in> set M"
        by (auto dest: set_zip_leftD set_zip_rightD)
      then have "length a = length ek" and "length b = length ek"
        using causal_mask_shape(2) [of "length ek"] scaled(2) by (auto simp: M)
      then show "length a = length b" by simp
    qed
    have "masked_fill ?scaled M (1 / 10 ^ 9)
        = Inr (map (\<lambda>(a, b). map (\<lambda>(x, y). if y then 1 / 10 ^ 9 else x) (zip a b))
                 (zip ?scaled M))"
      unfolding masked_fill_def by (rule broadcast2_same_shape [OF rows cols])
    with S Some have S_eq: "S = map (\<lambda>(a, b). map (\<lambda>(x, y). if y then 1 / 10 ^ 9 else x) (zip a b))
                 (zip ?scaled M)" by simp
    show ?thesis
    proof
      fix r assume "r \<in> set S"
      then obtain a b where ab: "(a, b) \<in> set (zip ?scaled M)"
        and r: "r = map (\<lambda>(x, y). if y then 1 / 10 ^ 9 else x) (zip a b)"
        unfolding S_eq by auto
      from ab have "a \<in> set ?scaled" and "b \<in> set M"
        by (auto dest: set_zip_leftD set_zip_rightD)
      then have "length a = length ek" and "length b = length ek"
        using causal_mask_shape(2) [of "length ek"] scaled(2) by (auto simp: M)
      then show "length r = length ek" by (simp add: r)
    qed
  qed
  then show ?thesis by (auto simp: PS softmax_dim1_def softmax_def)
qed

lemma tensor_add_same_shape:
  assumes "length A = n" "length B = n" "\<forall>r \<in> set A. length r = d" "\<forall>r \<in> set B. length r = d"
  shows "\<exists>C. tensor_add A B = Inr C \<and> length C = n \<and> (\<forall>r \<in> set C. length r = d)"
proof -
  have cols: "\<forall>(a, b) \<in> set (zip A B). length a = length b"
    using zip_row_lengths [OF _ assms(3,4)] by auto
  have rows: "length A = length B" using assms by simp
  have "\<forall>r \<in> set (map (\<lambda>(a, b). map (\<lambda>(x, y). x + y) (zip a b)) (zip A B)). length r = d"
    using zip_row_lengths [OF _ assms(3,4)] by auto
  then show ?thesis
    unfolding tensor_add_def broadcast2_same_shape [OF rows cols] using assms by simp
qed


lemma forward_succeeds:
  assumes shapes: "init_shapes model num_tokens d max_len"
    and tokens: "\<forall>t \<in> set ids. 0 \<le> t \<and> t < int num_tokens"
    and len: "length ids \<le> max_len"
  shows "\<exists>out. DecoderTransformer_forward model ids = Inr out \<and> length out = length ids
             \<and> (\<forall>r \<in> set out. length r = num_tokens)"
proof -
  let ?A = "self_attention model"
  let ?table = "PositionEncoding.pe (DecoderTransformer.pe model)"
  let ?n = "length ids"
  from shapes have we: "length (we model) = num_tokens" "\<forall>r \<in> set (we model). length r = d"
    and table: "length ?table = max_len" "\<forall>r \<in> set ?table. length r = d"
    and q: "bias (W_q ?A) = None" "length (weight (W_q ?A)) = d"
           "\<forall>w \<in> set (weight (W_q ?A)). length w = d"
    and k: "bias (W_k ?A) = None" "length (weight (W_k ?A)) = d"
           "\<forall>w \<in> set (weight (W_k ?A)). length w = d"
    and v: "bias (W_v ?A) = None" "length (weight (W_v ?A)) = d"
           "\<forall>w \<in> set (weight (W_v ?A)). length w = d"
    and fc: "length (weight (fc_layer model)) = num_tokens"
            "\<forall>w \<in> set (weight (fc_layer model)). length w = d"
    by (simp_all add: init_shapes_def)
  from shapes obtain b where b: "bias (fc_layer model) = Some b" "length b = num_tokens"
    by (auto simp: init_shapes_def)
  \<comment> \<open>embedding\<close>
  let ?E = "map (\<lambda>t. we model ! nat t) ids"
  have E: "Embedding_forward (we model) ids = Inr ?E"
    using tokens we(1) by (simp add: Embedding_forward_def)
  have E_rows: "\<forall>r \<in> set ?E. length r = d"
  proof
    fix r assume "r \<in> set ?E"
    then obtain t where "t \<in> set ids" and r: "r = we model ! nat t" by auto
    with tokens we(1) have "nat t < length (we model)" by auto
    then have "r \<in> set (we model)" unfolding r by (rule nth_mem)
    with we(2) show "length r = d" by blast
  qed
  \<comment> \<open>positional encoding\<close>
  have take_rows: "\<forall>r \<in> set (take ?n ?table). length r = d"
    using table(2) by (auto dest: in_set_takeD)
  have "length (take ?n ?table) = ?n" using len table(1) by simp
  with tensor_add_same_shape [of ?E ?n "take ?n ?table" d] E_rows take_rows
  obtain X where X: "PositionEncoding_forward (DecoderTransformer.pe model) ?E = Inr X"
    and X_len: "length X = ?n" and X_rows: "\<forall>r \<in> set X. length r = d"
    by (auto simp: PositionEncoding_forward_def)
  \<comment> \<open>attention\<close>
  from attention_percents_succeeds [of ?A X X X d "Some (causal_mask ?n)"]
  obtain P where P: "attention_percents ?A X X X (Some (causal_mask ?n)) = Inr P"
    and P_len: "length P = ?n"
    using q k v X_rows X_len by auto
  have P_rows: "\<forall>r \<in> set P. length r = ?n"
    using attention_percents_row_lengths [OF P] X_len by simp
  let ?v = "map (\<lambda>r. map (\<lambda>w. dot r w) (weight (W_v ?A))) X"
  have lin_v: "Linear_forward (W_v ?A) X = Inr ?v"
    using v X_rows by (simp add: Linear_forward_no_bias [where d = d])
  let ?att = "map (\<lambda>a. map (\<lambda>c. sum_list (map2 (\<lambda>x b. x * b ! c) a ?v)) [0..<d]) P"
  have "matmul P ?v d = Inr ?att"
    using P_rows X_len by (simp add: matmul_def)
  then have att: "Attention_forward ?A X X X (Some (causal_mask ?n)) = Inr ?att"
    by (simp only: Attention_forward_def P ebind_Inr lin_v v(2))
  have att_shape: "length ?att = ?n" "\<forall>r \<in> set ?att. length r = d"
    using P_len by auto
  \<comment> \<open>residual connection and output layer\<close>
  from tensor_add_same_shape [OF X_len att_shape(1) X_rows att_shape(2)]
  obtain R where R: "tensor_add X ?att = Inr R"
    and R_len: "length R = ?n" and R_rows: "\<forall>r \<in> set R. length r = d"
    by blast
  let ?out = "map (\<lambda>r. map2 (\<lambda>w c. dot r w + c) (weight (fc_layer model)) b) R"
  have out: "Linear_forward (fc_layer model) R = Inr ?out"
    using R_rows fc(2) b(1) by (simp add: Linear_forward_def)
  have "DecoderTransformer_forward model ids = Inr ?out"
    by (simp only: DecoderTransformer_forward_def Let_def E X att R out ebind_Inr)
  moreover have "length ?out = ?n" using R_len by simp
  moreover have "\<forall>r \<in> set ?out. length r = num_tokens" using fc(1) b(2) by auto
  ultimately show ?thesis by blast
qed

lemma argmax_last_succeeds:
  assumes "out \<noteq> []" and "\<forall>r \<in> set out. length r = k" and "0 < k"
  shows "\<exists>t. argmax_last out = Inr t \<and> 0 \<le> t \<and> t < int k"
proof -
  from assms have row: "length (last out) = k" by simp
  with assms(3) obtain x rest where "last out = x # rest" by (cases "last out") auto
  then obtain j where j: "argmax (last out) = Inr j" by (simp add: argmax_def)
  from argmax_first_max [OF j] row have "j < k" by simp
  then show ?thesis
    using argmax_last_rows [OF assms(1)] j by (simp add: ebind_Inr)
qed

lemma forward_then_argmax_succeeds:
  assumes shapes: "init_shapes model num_tokens d max_len" and "0 < num_tokens"
    and tokens: "\<forall>t \<in> set ids. 0 \<le> t \<and> t < int num_tokens"
    and len: "length ids \<le> max_len" and "ids \<noteq> []"
  shows "\<exists>t. ebind (DecoderTransformer_forward model ids) argmax_last = Inr t
           \<and> 0 \<le> t \<and> t < int num_tokens"
proof -
  from forward_succeeds [OF shapes tokens len] obtain out where
    out: "DecoderTransformer_forward model ids = Inr out" and "length out = length ids"
    and rows: "\<forall>r \<in> set out. length r = num_tokens" by blast
  with \<open>ids \<noteq> []\<close> have "out \<noteq> []" by auto
  from argmax_last_succeeds [OF this rows \<open>0 < num_tokens\<close>] show ?thesis
    by (simp add: out ebind_Inr)
qed

lemma predict_loop_succeeds:
  assumes shapes: "init_shapes model num_tokens d max_len" and pos: "0 < num_tokens"
    and tokens: "\<forall>t \<in> set (model_input s). 0 \<le> t \<and> t < int num_tokens"
    and current: "0 \<le> predicted_id s \<and> predicted_id s < int num_tokens"
    and room: "length (model_input s) + length idxs \<le> max_len"
  shows "\<exists>s'. snd (predict_loop model idxs s) = Inr s'"
  using tokens current room
proof (induction idxs arbitrary: s)
  case Nil
  show ?case by simp
next
  case (Cons i rest)
  show ?case
  proof (cases "predicted_id s = the (token_to_id ''<EOS>'')")
    case True
    then show ?thesis by simp
  next
    case False
    let ?input = "model_input s @ [predicted_id s]"
    have valid: "\<forall>t \<in> set ?input. 0 \<le> t \<and> t < int num_tokens"
      using Cons.prems by auto
    have "length ?input \<le> max_len" using Cons.prems by simp
    from forward_then_argmax_succeeds [OF shapes pos valid this]
    obtain p where p: "ebind (DecoderTransformer_forward model ?input) argmax_last = Inr p"
      and p_valid: "0 \<le> p \<and> p < int num_tokens" by auto
    let ?s1 = "\<lparr>model_input = ?input, predicted_id = p,
                predicted_ids = predicted_ids s @ [p]\<rparr>"
    have "\<exists>s'. snd (predict_loop model rest ?s1) = Inr s'"
      using valid p_valid Cons.prems by (intro Cons.IH) simp_all
    then show ?thesis
      using False p by (simp add: Let_def split_beta)
  qed
qed

lemma predict_generate_succeeds:
  assumes shapes: "init_shapes model num_tokens d max_len" and pos: "0 < num_tokens"
    and max_len: "6 \<le> max_len"
    and tokens: "\<forall>t \<in> set ids. 0 \<le> t \<and> t < int num_tokens"
    and seed: "ids \<noteq> []" "length ids \<le> 6"
  shows "\<exists>s. snd (predict_generate model ids) = Inr s"
proof -
  have "length ids \<le> max_len" using seed max_len by simp
  from forward_then_argmax_succeeds [OF shapes pos tokens this seed(1)]
  obtain p where p: "ebind (DecoderTransformer_forward model ids) argmax_last = Inr p"
    and p_valid: "0 \<le> p \<and> p < int num_tokens" by auto
  let ?s0 = "\<lparr>model_input = ids, predicted_id = p, predicted_ids = [p]\<rparr>"
  have "\<exists>s. snd (predict_loop model [length ids..<6] ?s0) = Inr s"
    using tokens p_valid seed max_len by (intro predict_loop_succeeds [OF shapes pos]) simp_all
  then show ?thesis using p by (simp add: predict_generate_def Let_def)
qed

lemma always_awesome_shapes: "init_shapes always_awesome 5 2 6"
  by (simp add: init_shapes_def always_awesome_def constant_model_def notebook_pe_def)

end
